theory Spec2Isabelle
  imports Main
begin

section \<open>JavaScript values, strings and errors\<close>

text \<open>
  A JavaScript string is a sequence of UTF-16 code units. The strings modelled here are
  those over the code units U+0000 to U+00FF (Basic Latin and Latin-1 Supplement, an
  8-bit character each) and the three forms of the Greek letter sigma: capital U+03A3,
  small U+03C3 and final small U+03C2. The sigmas are there because lower-casing is not a
  map on single code units: what the capital sigma becomes depends on its neighbours.
\<close>

datatype codeunit = Latin1 char | CapitalSigma | SmallSigma | FinalSigma

type_synonym jsstring = "codeunit list"

definition str :: "string \<Rightarrow> jsstring" where
  "str s = map Latin1 s"

fun isLatin1 :: "codeunit \<Rightarrow> bool" where
  "isLatin1 (Latin1 c) = True"
| "isLatin1 CapitalSigma = False"
| "isLatin1 SmallSigma = False"
| "isLatin1 FinalSigma = False"

text \<open>
  The component is generic over the item type \<open>T extends object\<close>; the only thing it
  does with an item is read \<open>item[filterField]\<close>. The source casts that value
  \<open>as string\<close> without a run-time check, so the value read is modelled as a JavaScript
  value that may or may not be a string.
\<close>

datatype jsval = JString jsstring | JNumber int | JUndefined

datatype jserror = TypeError | Error jserror

subsection \<open>\<open>String.prototype.toLowerCase\<close>\<close>

text \<open>
  The lower-case mapping of the Unicode Character Database on U+0000 to U+00FF: the
  letters A to Z (U+0041 to U+005A) and the capital letters U+00C0 to U+00DE, the
  multiplication sign U+00D7 apart, go to the code unit 32 above; every other code unit
  of that range is kept.
\<close>

definition toLowerCase_latin1 :: "char \<Rightarrow> char" where
  "toLowerCase_latin1 c =
     (let n = (of_char c :: int) in
      if 65 \<le> n \<and> n \<le> 90 then char_of (n + 32)
      else if 192 \<le> n \<and> n \<le> 214 then char_of (n + 32)
      else if 216 \<le> n \<and> n \<le> 222 then char_of (n + 32)
      else c)"

text \<open>
  The properties \<open>Cased\<close> and \<open>Case_Ignorable\<close> of the Unicode Character Database, which
  the rule for the final sigma reads. Cased in U+0000 to U+00FF: the letters A to Z and
  a to z, U+00AA, U+00B5, U+00BA, U+00C0 to U+00D6, U+00D8 to U+00F6 and U+00F8 to U+00FF.
  Case-ignorable there: U+0027, U+002E, U+003A, U+005E, U+0060, U+00A8, U+00AD, U+00AF,
  U+00B4, U+00B7 and U+00B8. The sigmas are cased and not case-ignorable.
\<close>

definition cased_latin1 :: "char \<Rightarrow> bool" where
  "cased_latin1 c =
     (let n = (of_char c :: int) in
      (65 \<le> n \<and> n \<le> 90) \<or> (97 \<le> n \<and> n \<le> 122) \<or> n = 170 \<or> n = 181 \<or> n = 186
      \<or> (192 \<le> n \<and> n \<le> 214) \<or> (216 \<le> n \<and> n \<le> 246) \<or> (248 \<le> n \<and> n \<le> 255))"

definition caseIgnorable_latin1 :: "char \<Rightarrow> bool" where
  "caseIgnorable_latin1 c =
     ((of_char c :: int) \<in> set [39, 46, 58, 94, 96, 168, 173, 175, 180, 183, 184])"

fun cased :: "codeunit \<Rightarrow> bool" where
  "cased (Latin1 c) = cased_latin1 c"
| "cased CapitalSigma = True"
| "cased SmallSigma = True"
| "cased FinalSigma = True"

fun caseIgnorable :: "codeunit \<Rightarrow> bool" where
  "caseIgnorable (Latin1 c) = caseIgnorable_latin1 c"
| "caseIgnorable CapitalSigma = False"
| "caseIgnorable SmallSigma = False"
| "caseIgnorable FinalSigma = False"

text \<open>The lower case of one code unit when its neighbours do not matter.\<close>

fun toLowerCase_unit :: "codeunit \<Rightarrow> codeunit" where
  "toLowerCase_unit (Latin1 c) = Latin1 (toLowerCase_latin1 c)"
| "toLowerCase_unit CapitalSigma = SmallSigma"
| "toLowerCase_unit SmallSigma = SmallSigma"
| "toLowerCase_unit FinalSigma = FinalSigma"

text \<open>
  The condition \<open>Final_Sigma\<close> of Unicode's \<open>SpecialCasing\<close>, which \<open>toLowerCase\<close> applies
  in every locale: a capital sigma becomes the final small sigma when a cased letter, and
  then only case-ignorable code units, come before it, and no cased letter follows it
  after case-ignorable code units only. \<open>casedAhead\<close> is the second half; the flag of
  \<open>lowerCaseFrom\<close> is the first half for the position reached.
\<close>

fun casedAhead :: "jsstring \<Rightarrow> bool" where
  "casedAhead [] = False"
| "casedAhead (u # us) =
     (if cased u then True else if caseIgnorable u then casedAhead us else False)"

fun lowerCaseFrom :: "bool \<Rightarrow> jsstring \<Rightarrow> jsstring" where
  "lowerCaseFrom casedBefore [] = []"
| "lowerCaseFrom casedBefore (u # us) =
     (if u = CapitalSigma
      then (if casedBefore \<and> \<not> casedAhead us then FinalSigma else SmallSigma)
      else toLowerCase_unit u)
     # lowerCaseFrom (if cased u then True else if caseIgnorable u then casedBefore else False) us"

definition toLowerCase :: "jsstring \<Rightarrow> jsstring" where
  "toLowerCase s = lowerCaseFrom False s"

text \<open>
  \<open>fieldValue.toLowerCase()\<close> where \<open>fieldValue\<close> is whatever the item holds: a value
  that is not a string has no such method (or is \<open>undefined\<close>) and the call throws a
  \<open>TypeError\<close>.
\<close>

fun toLowerCase_val :: "jsval \<Rightarrow> jserror + jsstring" where
  "toLowerCase_val (JString s) = Inr (toLowerCase s)"
| "toLowerCase_val (JNumber n) = Inl TypeError"
| "toLowerCase_val JUndefined = Inl TypeError"

text \<open>\<open>String.prototype.includes\<close>: does \<open>t\<close> occur in \<open>s\<close> as a contiguous run?\<close>

fun startsWith :: "jsstring \<Rightarrow> jsstring \<Rightarrow> bool" where
  "startsWith s [] = True"
| "startsWith [] (c # cs) = False"
| "startsWith (x # xs) (c # cs) = (x = c \<and> startsWith xs cs)"

fun str_includes :: "jsstring \<Rightarrow> jsstring \<Rightarrow> bool" where
  "str_includes [] t = (t = [])"
| "str_includes (x # xs) t = (startsWith (x # xs) t \<or> str_includes xs t)"

section \<open>The filter computation\<close>

text \<open>
  The body of the timer callback, shared by both versions of the component:
  \<^verbatim>\<open>
  data.filter((item: T) => {
    const fieldValue = item[filterField] as string;
    return fieldValue.toLowerCase().includes(input.toLowerCase());
  })
  \<close>
  \<open>Array.prototype.filter\<close> calls the predicate on every element from left to right; the
  first element whose field is not a string makes the predicate throw, and the exception
  leaves \<open>filter\<close>.
\<close>

fun filterData :: "('a \<Rightarrow> jsval) \<Rightarrow> jsstring \<Rightarrow> 'a list \<Rightarrow> jserror + 'a list" where
  "filterData fld input [] = Inr []"
| "filterData fld input (item # items) =
     (case toLowerCase_val (fld item) of
        Inl e \<Rightarrow> Inl e
      | Inr fieldValue \<Rightarrow>
          (case filterData fld input items of
             Inl e \<Rightarrow> Inl e
           | Inr rest \<Rightarrow>
               Inr (if str_includes fieldValue (toLowerCase input) then item # rest else rest)))"

fun the_string :: "jsval \<Rightarrow> jsstring" where
  "the_string (JString s) = s"
| "the_string (JNumber n) = []"
| "the_string JUndefined = []"

fun is_string :: "jsval \<Rightarrow> bool" where
  "is_string (JString s) = True"
| "is_string (JNumber n) = False"
| "is_string JUndefined = False"

section \<open>Props, state and effects of the component\<close>

text \<open>
  Two versions of the component are in the repository. In one
  (\<open>components/autocomplete/index.tsx\<close>) the change handler passes the filtering to
  \<open>setTimeout\<close> directly and the Enter key has no guard; in the other the filtering is
  wrapped in a Promise (\<open>filterDataAsync\<close>) and Enter is guarded by
  \<open>value !== "" && suggestions.length > 0\<close>. Everything else is the same code.
\<close>

datatype version = TimeoutVersion | PromiseVersion

text \<open>
  \<open>Props<T>\<close>: \<open>setSelectedItem\<close> is optional, so the prop records whether the host
  passed a callback; \<open>filterField\<close> is the read \<open>item[filterField]\<close>.
\<close>

record 'a props =
  data :: "'a list"
  loading :: bool
  setSelectedItem :: bool
  filterField :: "'a \<Rightarrow> jsval"

text \<open>The four \<open>useState\<close> cells. The cell \<open>value\<close> is named \<open>value'\<close> here.\<close>

record 'a state =
  value' :: jsval
  showSuggestions :: bool
  suggestions :: "'a list"
  activeSuggestion :: int

text \<open>
  What a handler does beyond updating the state: the call \<open>setSelectedItem(item)\<close>, the
  two assignments to \<open>suggestionsList.scrollTop\<close>, an exception that leaves a handler or
  a timer callback, and a rejected promise that nobody handles.
\<close>

datatype 'a effect =
    Selected 'a
  | ScrollToTop
  | ScrollToBottom
  | Uncaught jserror
  | UnhandledRejection jserror

text \<open>
  Where React and the browser take an error. An error boundary of the host receives what
  is thrown while a component renders (or in a lifecycle method); an exception that leaves
  an event handler or a timer callback is reported by the window's \<open>error\<close> event, and a
  rejected promise that has no handler by its \<open>unhandledrejection\<close> event. The handlers of
  this component throw in the last two ways only.
\<close>

datatype sink = ErrorBoundary | WindowErrorEvent | WindowUnhandledRejectionEvent

fun deliveredTo :: "'a effect \<Rightarrow> sink option" where
  "deliveredTo (Uncaught e) = Some WindowErrorEvent"
| "deliveredTo (UnhandledRejection e) = Some WindowUnhandledRejectionEvent"
| "deliveredTo (Selected item) = None"
| "deliveredTo ScrollToTop = None"
| "deliveredTo ScrollToBottom = None"

datatype key = ArrowUp | ArrowDown | Escape | Enter | OtherKey

text \<open>\<open>xs[i]\<close>: \<open>undefined\<close> (here \<open>None\<close>) outside the array.\<close>

definition at_index :: "'a list \<Rightarrow> int \<Rightarrow> 'a option" where
  "at_index xs i = (if 0 \<le> i \<and> i < int (length xs) then Some (xs ! nat i) else None)"

text \<open>
  \<open>Array.prototype.indexOf\<close>: the first position of the element, \<open>-1\<close> if absent.
  JavaScript compares objects by identity; an element of the item type stands for one
  object, so that equal elements are the same object.
\<close>

fun indexOf :: "'a list \<Rightarrow> 'a \<Rightarrow> int" where
  "indexOf [] x = - 1"
| "indexOf (y # ys) x =
     (if y = x then 0 else (let i = indexOf ys x in if i < 0 then - 1 else i + 1))"

section \<open>The handlers\<close>

text \<open>
  \<^verbatim>\<open>
  const onSetSuggestion = (item: T) => {
    setShowSuggestions(false);
    setValue(item[filterField]);
    setSelectedItem && setSelectedItem(item);
  };
  \<close>
\<close>

definition onSetSuggestion :: "'a props \<Rightarrow> 'a \<Rightarrow> 'a state \<Rightarrow> 'a state \<times> 'a effect list" where
  "onSetSuggestion pr item s =
     (s\<lparr>showSuggestions := False, value' := filterField pr item\<rparr>,
      if setSelectedItem pr then [Selected item] else [])"

text \<open>
  The body of the Enter branch of \<open>onKeyDown\<close>:
  \<^verbatim>\<open>
  setShowSuggestions(false);
  setValue(suggestions[activeSuggestion][filterField]);
  setSelectedItem && setSelectedItem(suggestions[activeSuggestion]);
  \<close>
  When \<open>suggestions[activeSuggestion]\<close> is \<open>undefined\<close>, reading its field throws a
  \<open>TypeError\<close>; the update \<open>setShowSuggestions(false)\<close> has been queued by then and is
  applied.
\<close>

definition enterPressed :: "'a props \<Rightarrow> 'a state \<Rightarrow> 'a state \<times> 'a effect list" where
  "enterPressed pr s =
     (let s1 = s\<lparr>showSuggestions := False\<rparr> in
      case at_index (suggestions s) (activeSuggestion s) of
        None \<Rightarrow> (s1, [Uncaught TypeError])
      | Some item \<Rightarrow>
          (s1\<lparr>value' := filterField pr item\<rparr>,
           if setSelectedItem pr then [Selected item] else []))"

text \<open>
  \<open>onKeyDown\<close>. The list element \<open>suggestionsList\<close> is not null exactly when the list is
  rendered, that is when \<open>showSuggestions\<close> holds; \<open>e.target.value.length > -1\<close> is always
  true; \<open>activeSuggestion <= suggestions.length / 2\<close> compares with the exact quotient, so
  it is \<open>2 * activeSuggestion \<le> length\<close>. The guard of the Enter branch is the only place
  where the two versions differ.
\<close>

definition enterGuard :: "version \<Rightarrow> 'a state \<Rightarrow> bool" where
  "enterGuard v s =
     (case v of
        TimeoutVersion \<Rightarrow> True
      | PromiseVersion \<Rightarrow> value' s \<noteq> JString [] \<and> 0 < length (suggestions s))"

definition onKeyDown :: "version \<Rightarrow> 'a props \<Rightarrow> key \<Rightarrow> 'a state \<Rightarrow> 'a state \<times> 'a effect list" where
  "onKeyDown v pr k s =
     (let len = int (length (suggestions s)); a = activeSuggestion s in
      if k = ArrowUp \<and> a \<noteq> 0 then
        (s\<lparr>activeSuggestion := a - 1\<rparr>,
         if showSuggestions s \<and> 2 * a \<le> len then [ScrollToTop] else [])
      else if k = ArrowDown \<and> a < len - 1 then
        (s\<lparr>activeSuggestion := a + 1\<rparr>,
         if showSuggestions s \<and> len \<le> 2 * a then [ScrollToBottom] else [])
      else if k = Escape then
        (s\<lparr>showSuggestions := False, value' := JString []\<rparr>, [])
      else if k = Enter \<and> enterGuard v s then enterPressed pr s
      else (s, []))"

definition onSuggestionItemHover :: "int \<Rightarrow> 'a state \<Rightarrow> 'a state" where
  "onSuggestionItemHover index s = s\<lparr>activeSuggestion := index\<rparr>"

text \<open>The handler given to \<open>useOnClickOutside\<close>: \<open>() => { setShowSuggestions(false) }\<close>.\<close>

definition onClickOutside :: "'a state \<Rightarrow> 'a state" where
  "onClickOutside s = s\<lparr>showSuggestions := False\<rparr>"

section \<open>Filter requests and timers\<close>

text \<open>
  Every request is a \<open>setTimeout(..., 1000)\<close> whose callback has captured the text typed.
  The delay is the same for all of them, so the browser runs the callbacks in the order in
  which they were set: the pending callbacks are a queue, oldest first, and no code path
  ever removes one (there is no \<open>clearTimeout\<close>). The props are those of one render of
  the host: the candidates do not change while a request is pending.
\<close>

record 'a world =
  comp :: "'a state"
  timers :: "jsstring list"

definition handleOnChange :: "jsstring \<Rightarrow> 'a world \<Rightarrow> 'a world" where
  "handleOnChange input w =
     (let s = (comp w)\<lparr>value' := JString input, activeSuggestion := 0\<rparr> in
      if input = [] then w\<lparr>comp := s\<lparr>showSuggestions := False\<rparr>\<rparr>
      else w\<lparr>comp := s, timers := timers w @ [input]\<rparr>)"

text \<open>
  \<open>filterDataAsync\<close> of the Promise version: the timer callback runs the filter inside
  \<open>try\<close>, resolves with the result and rejects with whatever was thrown.
\<close>

datatype 'a settled = Resolved 'a | Rejected jserror

definition filterDataAsync :: "'a props \<Rightarrow> jsstring \<Rightarrow> 'a list settled" where
  "filterDataAsync pr filterValue =
     (case filterData (filterField pr) filterValue (data pr) of
        Inl error \<Rightarrow> Rejected error
      | Inr filteredData \<Rightarrow> Resolved filteredData)"

text \<open>
  What happens when the timer of a request elapses. Timeout version: the filter runs in the
  callback, an exception leaves it uncaught, otherwise
  \<open>setShowSuggestions(true); setSuggestions(filtered)\<close>. Promise version: \<open>.then\<close> does the
  same two updates on a resolved promise; on a rejected one \<open>.catch\<close> runs
  \<open>throw Error(error)\<close>, which rejects the promise of the chain, and nothing handles that.
\<close>

definition timerElapsed :: "version \<Rightarrow> 'a props \<Rightarrow> jsstring \<Rightarrow> 'a state \<Rightarrow> 'a state \<times> 'a effect list" where
  "timerElapsed v pr input s =
     (case v of
        TimeoutVersion \<Rightarrow>
          (case filterData (filterField pr) input (data pr) of
             Inl e \<Rightarrow> (s, [Uncaught e])
           | Inr filtered \<Rightarrow> (s\<lparr>showSuggestions := True, suggestions := filtered\<rparr>, []))
      | PromiseVersion \<Rightarrow>
          (case filterDataAsync pr input of
             Rejected error \<Rightarrow> (s, [UnhandledRejection (Error error)])
           | Resolved d \<Rightarrow> (s\<lparr>showSuggestions := True, suggestions := d\<rparr>, [])))"

section \<open>Events\<close>

text \<open>
  One event is handled at a time and the component is rendered again before the next one,
  so each handler sees the state left by the previous event. A list item exists, and can
  be hovered or clicked, only while the list is shown; \<open>MouseDownOutside\<close> is a mouse
  press whose target is outside the container, for which \<open>useOnClickOutside\<close> calls the
  handler; \<open>TimerElapses\<close> is the oldest pending timer reaching its 1000 ms.
\<close>

datatype event =
    Change jsstring
  | TimerElapses
  | KeyDown key
  | MouseEnterItem nat
  | ClickItem nat
  | MouseDownOutside

definition itemRendered :: "'a state \<Rightarrow> nat \<Rightarrow> bool" where
  "itemRendered s n = (showSuggestions s \<and> n < length (suggestions s))"

fun step :: "version \<Rightarrow> 'a props \<Rightarrow> event \<Rightarrow> 'a world \<Rightarrow> 'a world \<times> 'a effect list" where
  "step v pr (Change input) w = (handleOnChange input w, [])"
| "step v pr TimerElapses w =
     (case timers w of
        [] \<Rightarrow> (w, [])
      | input # later \<Rightarrow>
          (let (s, out) = timerElapsed v pr input (comp w)
           in (w\<lparr>comp := s, timers := later\<rparr>, out)))"
| "step v pr (KeyDown k) w =
     (let (s, out) = onKeyDown v pr k (comp w) in (w\<lparr>comp := s\<rparr>, out))"
| "step v pr (MouseEnterItem n) w =
     (if itemRendered (comp w) n
      then (w\<lparr>comp := onSuggestionItemHover
                          (indexOf (suggestions (comp w)) (suggestions (comp w) ! n)) (comp w)\<rparr>, [])
      else (w, []))"
| "step v pr (ClickItem n) w =
     (if itemRendered (comp w) n
      then (let (s, out) = onSetSuggestion pr (suggestions (comp w) ! n) (comp w)
            in (w\<lparr>comp := s\<rparr>, out))
      else (w, []))"
| "step v pr MouseDownOutside w = (w\<lparr>comp := onClickOutside (comp w)\<rparr>, [])"

fun run :: "version \<Rightarrow> 'a props \<Rightarrow> event list \<Rightarrow> 'a world \<times> 'a effect list \<Rightarrow> 'a world \<times> 'a effect list" where
  "run v pr [] c = c"
| "run v pr (e # es) c =
     (let (w, out) = step v pr e (fst c) in run v pr es (w, snd c @ out))"

text \<open>The state at mount: empty text, hidden, no suggestions, cursor 0, no timer.\<close>

definition mounted :: "'a world" where
  "mounted =
     \<lparr>comp = \<lparr>value' = JString [], showSuggestions = False, suggestions = [],
               activeSuggestion = 0\<rparr>,
      timers = []\<rparr>"

text \<open>Objects with string keys, for concrete inputs: \<open>item[key]\<close> is \<open>undefined\<close> when absent.\<close>

type_synonym jsobject = "(string \<times> jsval) list"

definition getProp :: "string \<Rightarrow> jsobject \<Rightarrow> jsval" where
  "getProp k obj = (case map_of obj k of None \<Rightarrow> JUndefined | Some x \<Rightarrow> x)"

definition pokemon :: "string \<Rightarrow> jsobject" where
  "pokemon n = [(''name'', JString (str n))]"

definition hostProps :: "jsobject list \<Rightarrow> jsobject props" where
  "hostProps items =
     \<lparr>data = items, loading = False, setSelectedItem = True, filterField = getProp ''name''\<rparr>"

section \<open>The highlighter\<close>

text \<open>
  \<^verbatim>\<open>
  const regex = new RegExp(searchValue, "gi");
  const isSearchValueFound = regex.test(value);
  if (isSearchValueFound) {
    const highlightedCountry = value.replace(
      regex, `<span style="background-color: yellow">${searchValue}</span>`);
    return <div dangerouslySetInnerHTML={{ __html: highlightedCountry }} />;
  }
  return <div>{value}</div>;
  \<close>
  The text typed is the source of a regular expression. The patterns modelled are those
  made of ordinary characters, each matching itself up to case (flag \<open>i\<close>), and of the dot,
  which matches any character but a line terminator. A pattern with any other syntax
  character (\<open>^ $ \ * + ? ( ) [ ] { } |\<close>) is outside the model: \<open>parsePattern\<close> gives \<open>None\<close>.
  Such patterns have no \<open>$\<close>, so the replacement text is inserted as it is.
\<close>

datatype atom = Lit codeunit | AnyChar

definition syntaxCharacters :: "char list" where
  "syntaxCharacters = ''^$*+?()[]{}|'' @ [CHR 0x5C]"

fun parsePattern :: "jsstring \<Rightarrow> atom list option" where
  "parsePattern [] = Some []"
| "parsePattern (u # us) =
     (if u = Latin1 (CHR ''.'') then map_option ((#) AnyChar) (parsePattern us)
      else if u \<in> Latin1 ` set syntaxCharacters then None
      else map_option ((#) (Lit u)) (parsePattern us))"

text \<open>
  With the flag \<open>i\<close> and without the flag \<open>u\<close> two code units match when \<open>Canonicalize\<close>
  gives the same code unit for both: the upper case of the code unit when that is a single
  code unit, except that a code unit from U+0080 on is kept when its upper case is below
  U+0080. On U+0000 to U+00FF: the letters a to z and U+00E0 to U+00FE, the division
  sign U+00F7 apart, go to the code unit 32 below, the micro sign U+00B5 to U+039C, U+00FF
  to U+0178, and the sharp s U+00DF, whose upper case is two code units, is kept. The
  three sigmas all go to U+03A3. The result is the number of the code unit.
\<close>

definition canonicalize_latin1 :: "char \<Rightarrow> int" where
  "canonicalize_latin1 c =
     (let n = (of_char c :: int) in
      if 97 \<le> n \<and> n \<le> 122 then n - 32
      else if 224 \<le> n \<and> n \<le> 246 then n - 32
      else if 248 \<le> n \<and> n \<le> 254 then n - 32
      else if n = 181 then 924
      else if n = 255 then 376
      else n)"

fun canonicalize :: "codeunit \<Rightarrow> int" where
  "canonicalize (Latin1 c) = canonicalize_latin1 c"
| "canonicalize CapitalSigma = 931"
| "canonicalize SmallSigma = 931"
| "canonicalize FinalSigma = 931"

text \<open>
  The small letter that belongs to a canonical code unit, used to compare \<open>Canonicalize\<close>
  with the lower case.
\<close>

definition lowerOfCanonical :: "int \<Rightarrow> char" where
  "lowerOfCanonical n =
     (if n = 924 then CHR 0xB5 else if n = 376 then CHR 0xFF else toLowerCase_latin1 (char_of n))"

fun atomMatches :: "atom \<Rightarrow> codeunit \<Rightarrow> bool" where
  "atomMatches (Lit a) c = (canonicalize a = canonicalize c)"
| "atomMatches AnyChar c = (c \<noteq> Latin1 (CHR 0x0A) \<and> c \<noteq> Latin1 (CHR 0x0D))"

fun matchesAt :: "atom list \<Rightarrow> jsstring \<Rightarrow> bool" where
  "matchesAt [] s = True"
| "matchesAt (a # as) [] = False"
| "matchesAt (a # as) (c # cs) = (atomMatches a c \<and> matchesAt as cs)"

text \<open>\<open>regex.test(value)\<close> on a fresh regex: is there a match at some position?\<close>

fun regexTest :: "atom list \<Rightarrow> jsstring \<Rightarrow> bool" where
  "regexTest p [] = matchesAt p []"
| "regexTest p (c # cs) = (matchesAt p (c # cs) \<or> regexTest p cs)"

text \<open>
  \<open>value.replace(regex, replacement)\<close> with the flag \<open>g\<close>: scan from the left, replace
  every match and go on after it; after an empty match go on one character further.
\<close>

function replaceAll :: "atom list \<Rightarrow> jsstring \<Rightarrow> jsstring \<Rightarrow> jsstring" where
  "replaceAll p r [] = (if p = [] then r else [])"
| "replaceAll p r (c # cs) =
     (if p = [] then r @ c # replaceAll p r cs
      else if matchesAt p (c # cs) then r @ replaceAll p r (drop (length p) (c # cs))
      else c # replaceAll p r cs)"
  by pat_completeness auto
termination
  by (relation "measure (\<lambda>(p, r, s). length s)") auto

definition highlightSpan :: "jsstring \<Rightarrow> jsstring" where
  \<open>highlightSpan searchValue =
     str ''<span style="background-color: yellow">'' @ searchValue @ str ''</span>''\<close>

text \<open>What the component renders: markup set as inner HTML, or a text child.\<close>

datatype rendered = InnerHTML jsstring | TextChild jsstring

definition HighlightSearchValue :: "jsstring \<Rightarrow> jsstring \<Rightarrow> rendered option" where
  "HighlightSearchValue searchValue v =
     (case parsePattern searchValue of
        None \<Rightarrow> None
      | Some regex \<Rightarrow>
          Some (if regexTest regex v
                then InnerHTML (replaceAll regex (highlightSpan searchValue) v)
                else TextChild v))"

section \<open>The words of the specification\<close>

text \<open>
  Letters that differ in case only, as a table and apart from the code: each capital
  letter of U+0000 to U+00FF beside its small letter. Two code units are the same letter
  when they are equal or one is the capital of the other; the three sigmas are one
  letter.
\<close>

definition capitalLetters :: "char list" where
  "capitalLetters =
     ''ABCDEFGHIJKLMNOPQRSTUVWXYZ'' @
     [CHR 0xC0, CHR 0xC1, CHR 0xC2, CHR 0xC3, CHR 0xC4, CHR 0xC5, CHR 0xC6, CHR 0xC7,
      CHR 0xC8, CHR 0xC9, CHR 0xCA, CHR 0xCB, CHR 0xCC, CHR 0xCD, CHR 0xCE, CHR 0xCF,
      CHR 0xD0, CHR 0xD1, CHR 0xD2, CHR 0xD3, CHR 0xD4, CHR 0xD5, CHR 0xD6,
      CHR 0xD8, CHR 0xD9, CHR 0xDA, CHR 0xDB, CHR 0xDC, CHR 0xDD, CHR 0xDE]"

definition smallLetters :: "char list" where
  "smallLetters =
     ''abcdefghijklmnopqrstuvwxyz'' @
     [CHR 0xE0, CHR 0xE1, CHR 0xE2, CHR 0xE3, CHR 0xE4, CHR 0xE5, CHR 0xE6, CHR 0xE7,
      CHR 0xE8, CHR 0xE9, CHR 0xEA, CHR 0xEB, CHR 0xEC, CHR 0xED, CHR 0xEE, CHR 0xEF,
      CHR 0xF0, CHR 0xF1, CHR 0xF2, CHR 0xF3, CHR 0xF4, CHR 0xF5, CHR 0xF6,
      CHR 0xF8, CHR 0xF9, CHR 0xFA, CHR 0xFB, CHR 0xFC, CHR 0xFD, CHR 0xFE]"

definition casePairs :: "(char \<times> char) list" where
  "casePairs = zip capitalLetters smallLetters"

fun sameLetter :: "codeunit \<Rightarrow> codeunit \<Rightarrow> bool" where
  "sameLetter (Latin1 a) (Latin1 b) =
     (a = b \<or> (a, b) \<in> set casePairs \<or> (b, a) \<in> set casePairs)"
| "sameLetter (Latin1 a) CapitalSigma = False"
| "sameLetter (Latin1 a) SmallSigma = False"
| "sameLetter (Latin1 a) FinalSigma = False"
| "sameLetter CapitalSigma (Latin1 b) = False"
| "sameLetter SmallSigma (Latin1 b) = False"
| "sameLetter FinalSigma (Latin1 b) = False"
| "sameLetter CapitalSigma y = True"
| "sameLetter SmallSigma y = True"
| "sameLetter FinalSigma y = True"

text \<open>
  \<open>q\<close> occurs at the start of \<open>s\<close>, and a text \<open>contains q as a case-insensitive
  substring\<close>: some contiguous part of it is \<open>q\<close> letter by letter, up to case.
\<close>

definition occursAtStart :: "jsstring \<Rightarrow> jsstring \<Rightarrow> bool" where
  "occursAtStart q s = (\<exists>m r. s = m @ r \<and> list_all2 sameLetter m q)"

definition contains_ci :: "jsstring \<Rightarrow> jsstring \<Rightarrow> bool" where
  "contains_ci v q = (\<exists>p m s. v = p @ m @ s \<and> list_all2 sameLetter m q)"

text \<open>The emphasis marker: a span with a yellow background around the text.\<close>

definition emphasis :: "jsstring \<Rightarrow> jsstring" where
  \<open>emphasis m = str ''<span style="background-color: yellow">'' @ m @ str ''</span>''\<close>

text \<open>
  \<open>highlighted q v out\<close>: \<open>out\<close> is \<open>v\<close> with every occurrence of \<open>q\<close>, found scanning from
  the left, inside the emphasis marker, and every other character as it is. The text
  inside a marker is the occurrence up to the case of its letters; which case it has is
  left open.
\<close>

inductive highlighted :: "jsstring \<Rightarrow> jsstring \<Rightarrow> jsstring \<Rightarrow> bool" where
  nothing: "highlighted q [] []"
| wrap: "list_all2 sameLetter m q \<Longrightarrow> list_all2 sameLetter m' m \<Longrightarrow> highlighted q rest out
         \<Longrightarrow> highlighted q (m @ rest) (emphasis m' @ out)"
| keep: "\<not> occursAtStart q (c # rest) \<Longrightarrow> highlighted q rest out
         \<Longrightarrow> highlighted q (c # rest) (c # out)"

definition ordinary :: "jsstring \<Rightarrow> bool" where
  "ordinary q =
     (q \<noteq> [] \<and>
      list_all (\<lambda>u. u \<noteq> Latin1 (CHR ''.'') \<and> u \<notin> Latin1 ` set syntaxCharacters) q)"



section \<open>Concrete inputs\<close>

text \<open>Candidates for concrete runs, named after the list in the README.\<close>

definition pokedex :: "jsobject list" where
  "pokedex = [pokemon ''bulbasaur'', pokemon ''onix'', pokemon ''voltorb'', pokemon ''tentacool'']"

text \<open>A world with the list shown and no timer pending.\<close>

definition shown :: "string \<Rightarrow> jsobject list \<Rightarrow> int \<Rightarrow> jsobject world" where
  "shown txt items cursor =
     \<lparr>comp = \<lparr>value' = JString (str txt), showSuggestions = True, suggestions = items,
               activeSuggestion = cursor\<rparr>,
      timers = []\<rparr>"

section \<open>Properties of the string functions\<close>

lemma startsWith_iff: "startsWith s t \<longleftrightarrow> (\<exists>r. s = t @ r)"
  by (induction s t rule: startsWith.induct) auto

lemma str_includes_iff: "str_includes s t \<longleftrightarrow> (\<exists>p r. s = p @ t @ r)"
proof (induction s)
  case Nil
  then show ?case by auto
next
  case (Cons x xs)
  show ?case
  proof
    assume "str_includes (x # xs) t"
    then consider "startsWith (x # xs) t" | "str_includes xs t" by auto
    then show "\<exists>p r. x # xs = p @ t @ r"
    proof cases
      case 1
      then obtain r where "x # xs = t @ r" by (auto simp: startsWith_iff)
      then have "x # xs = [] @ t @ r" by simp
      then show ?thesis by blast
    next
      case 2
      then obtain p r where "xs = p @ t @ r" using Cons.IH by blast
      then have "x # xs = (x # p) @ t @ r" by simp
      then show ?thesis by blast
    qed
  next
    assume "\<exists>p r. x # xs = p @ t @ r"
    then obtain p r where pr: "x # xs = p @ t @ r" by blast
    show "str_includes (x # xs) t"
    proof (cases p)
      case Nil
      with pr have "startsWith (x # xs) t" by (auto simp: startsWith_iff)
      then show ?thesis by simp
    next
      case (Cons y ys)
      with pr have "xs = ys @ t @ r" by simp
      then have "str_includes xs t" using Cons.IH by blast
      then show ?thesis by simp
    qed
  qed
qed

text \<open>On U+0000 to U+00FF lower-casing is a map on the code units.\<close>

lemma lowerCaseFrom_latin1:
  "list_all isLatin1 s \<Longrightarrow> lowerCaseFrom b s = map toLowerCase_unit s"
  by (induction s arbitrary: b) auto

lemma toLowerCase_latin1_text:
  "list_all isLatin1 s \<Longrightarrow> toLowerCase s = map toLowerCase_unit s"
  by (simp add: toLowerCase_def lowerCaseFrom_latin1)

text \<open>The code's arithmetic and the table of letters agree on every code unit.\<close>

lemma lower_in_table:
  "\<forall>c. toLowerCase_latin1 c = c \<or> (c, toLowerCase_latin1 c) \<in> set casePairs"
  by code_simp

lemma table_is_lower:
  "list_all (\<lambda>(u, l). toLowerCase_latin1 u = l \<and> toLowerCase_latin1 l = l) casePairs"
  by code_simp

lemma small_letters_distinct: "distinct (map snd casePairs)"
  by code_simp

lemma casePair_lower:
  assumes "(u, l) \<in> set casePairs"
  shows "toLowerCase_latin1 u = l" and "toLowerCase_latin1 l = l"
  using assms table_is_lower by (auto simp: list_all_iff)

lemma distinct_snd_unique:
  "distinct (map snd xs) \<Longrightarrow> (a, l) \<in> set xs \<Longrightarrow> (b, l) \<in> set xs \<Longrightarrow> a = b"
  by (induction xs) (force simp: image_iff)+

lemma casePair_capital_unique:
  assumes "(a, l) \<in> set casePairs" and "(b, l) \<in> set casePairs"
  shows "a = b"
  using distinct_snd_unique [OF small_letters_distinct assms] .

lemma lower_eq_iff_sameLetter:
  "toLowerCase_latin1 a = toLowerCase_latin1 b \<longleftrightarrow> sameLetter (Latin1 a) (Latin1 b)"
proof
  assume eq: "toLowerCase_latin1 a = toLowerCase_latin1 b"
  from lower_in_table
  have ta: "toLowerCase_latin1 a = a \<or> (a, toLowerCase_latin1 a) \<in> set casePairs"
    and tb: "toLowerCase_latin1 b = b \<or> (b, toLowerCase_latin1 b) \<in> set casePairs"
    by blast+
  show "sameLetter (Latin1 a) (Latin1 b)"
  proof (cases "toLowerCase_latin1 a = a")
    case True
    note a_small = this
    show ?thesis
    proof (cases "toLowerCase_latin1 b = b")
      case True
      with a_small eq show ?thesis by simp
    next
      case False
      with tb eq a_small have "(b, a) \<in> set casePairs" by simp
      then show ?thesis by simp
    qed
  next
    case False
    with ta have pa: "(a, toLowerCase_latin1 a) \<in> set casePairs" by simp
    show ?thesis
    proof (cases "toLowerCase_latin1 b = b")
      case True
      with pa eq have "(a, b) \<in> set casePairs" by simp
      then show ?thesis by simp
    next
      case False
      with tb eq have "(b, toLowerCase_latin1 a) \<in> set casePairs" by simp
      with pa have "a = b" by (rule casePair_capital_unique)
      then show ?thesis by simp
    qed
  qed
next
  assume "sameLetter (Latin1 a) (Latin1 b)"
  then consider "a = b" | "(a, b) \<in> set casePairs" | "(b, a) \<in> set casePairs"
    by auto
  then show "toLowerCase_latin1 a = toLowerCase_latin1 b"
  proof cases
    case 1
    then show ?thesis by simp
  next
    case 2
    from casePair_lower [OF this] show ?thesis by simp
  next
    case 3
    from casePair_lower [OF this] show ?thesis by simp
  qed
qed

lemma lower_unit_eq_iff_sameLetter:
  "isLatin1 x \<Longrightarrow> isLatin1 y \<Longrightarrow>
   toLowerCase_unit x = toLowerCase_unit y \<longleftrightarrow> sameLetter x y"
  by (cases x; cases y) (simp_all add: lower_eq_iff_sameLetter)

lemma map_lower_eq_iff_sameLetters:
  assumes "list_all isLatin1 m" and "list_all isLatin1 q"
  shows "map toLowerCase_unit m = map toLowerCase_unit q \<longleftrightarrow> list_all2 sameLetter m q"
proof -
  have "map toLowerCase_unit m = map toLowerCase_unit q \<longleftrightarrow>
        list_all2 (\<lambda>x y. toLowerCase_unit x = toLowerCase_unit y) m q"
    by (auto simp: list_all2_conv_all_nth list_eq_iff_nth_eq)
  also have "\<dots> \<longleftrightarrow> list_all2 sameLetter m q"
  proof
    assume "list_all2 (\<lambda>x y. toLowerCase_unit x = toLowerCase_unit y) m q"
    then show "list_all2 sameLetter m q"
      by (rule list.rel_mono_strong) (use assms in \<open>simp add: list_all_iff lower_unit_eq_iff_sameLetter\<close>)
  next
    assume "list_all2 sameLetter m q"
    then show "list_all2 (\<lambda>x y. toLowerCase_unit x = toLowerCase_unit y) m q"
      by (rule list.rel_mono_strong) (use assms in \<open>simp add: list_all_iff lower_unit_eq_iff_sameLetter\<close>)
  qed
  finally show ?thesis .
qed

lemma includes_lower_iff_contains_ci:
  assumes "list_all isLatin1 v" and "list_all isLatin1 q"
  shows "str_includes (toLowerCase v) (toLowerCase q) \<longleftrightarrow> contains_ci v q"
proof
  let ?f = "map toLowerCase_unit"
  assume "str_includes (toLowerCase v) (toLowerCase q)"
  then obtain p r where pr: "?f v = p @ ?f q @ r"
    using assms by (auto simp: str_includes_iff toLowerCase_latin1_text)
  define m where "m = take (length q) (drop (length p) v)"
  have split: "v = take (length p) v @ m @ drop (length q) (drop (length p) v)"
    unfolding m_def by (simp only: append_take_drop_id)
  have "?f m = take (length q) (drop (length p) (?f v))"
    by (simp add: m_def take_map drop_map)
  also have "\<dots> = ?f q"
    by (simp add: pr)
  finally have same: "?f m = ?f q" .
  have "set m \<subseteq> set v"
    unfolding m_def by (meson set_take_subset set_drop_subset subset_trans)
  with assms(1) have "list_all isLatin1 m"
    by (auto simp: list_all_iff)
  with same assms(2) have "list_all2 sameLetter m q"
    by (simp add: map_lower_eq_iff_sameLetters)
  with split show "contains_ci v q"
    unfolding contains_ci_def by blast
next
  let ?f = "map toLowerCase_unit"
  assume "contains_ci v q"
  then obtain p m s where v: "v = p @ m @ s" and same: "list_all2 sameLetter m q"
    unfolding contains_ci_def by blast
  from v assms(1) have "list_all isLatin1 m" by simp
  with same assms(2) have "?f m = ?f q"
    by (simp add: map_lower_eq_iff_sameLetters)
  with v have "?f v = ?f p @ ?f q @ ?f s" by simp
  then have "str_includes (?f v) (?f q)"
    unfolding str_includes_iff by blast
  then show "str_includes (toLowerCase v) (toLowerCase q)"
    using assms by (simp add: toLowerCase_latin1_text)
qed

section \<open>The filter returns the matching items\<close>

lemma toLowerCase_val_string:
  "is_string x \<Longrightarrow> toLowerCase_val x = Inr (toLowerCase (the_string x))"
  by (cases x) simp_all

lemma toLowerCase_val_not_string:
  "\<not> is_string x \<Longrightarrow> toLowerCase_val x = Inl TypeError"
  by (cases x) simp_all

lemma filterData_strings:
  "list_all (\<lambda>item. is_string (fld item)) L \<Longrightarrow>
   filterData fld q L =
     Inr (filter (\<lambda>item. str_includes (toLowerCase (the_string (fld item))) (toLowerCase q)) L)"
  by (induction L) (simp_all add: toLowerCase_val_string)

lemma filterData_throws:
  "\<not> list_all (\<lambda>item. is_string (fld item)) L \<Longrightarrow> filterData fld q L = Inl TypeError"
proof (induction L)
  case Nil
  then show ?case by simp
next
  case (Cons item items)
  show ?case
  proof (cases "is_string (fld item)")
    case True
    with Cons.prems have "\<not> list_all (\<lambda>item. is_string (fld item)) items" by simp
    then have "filterData fld q items = Inl TypeError" by (rule Cons.IH)
    then show ?thesis by (simp add: toLowerCase_val_string True)
  next
    case False
    then show ?thesis by (simp add: toLowerCase_val_not_string)
  qed
qed

lemma latin1_str: "list_all isLatin1 (str s)"
  by (simp add: str_def list_all_iff)





section \<open>A failing filter changes nothing\<close>

text \<open>
  Claim C9 as stated fails. One candidate has no name, so the filter throws. In the
  timeout version there is no promise to reject and the exception leaves the timer
  callback; in the Promise version the promise is rejected and \<open>.catch\<close> throws a new
  error, which nothing handles. Neither error is handed to an error boundary of the host:
  the first goes to the window's \<open>error\<close> event, the second to its \<open>unhandledrejection\<close>
  event.
\<close>

theorem filter_error_reaches_no_boundary_counterexample:
  "step TimeoutVersion (hostProps [pokemon ''onix'', [(''id'', JNumber 7)]]) TimerElapses
     (handleOnChange (str ''on'') mounted)
   = ((handleOnChange (str ''on'') mounted)\<lparr>timers := []\<rparr>, [Uncaught TypeError])
   \<and> deliveredTo (Uncaught TypeError :: jsobject effect) = Some WindowErrorEvent
   \<and> step PromiseVersion (hostProps [pokemon ''onix'', [(''id'', JNumber 7)]]) TimerElapses
     (handleOnChange (str ''on'') mounted)
   = ((handleOnChange (str ''on'') mounted)\<lparr>timers := []\<rparr>,
      [UnhandledRejection (Error TypeError)])
   \<and> deliveredTo (UnhandledRejection (Error TypeError) :: jsobject effect)
       = Some WindowUnhandledRejectionEvent"
  by code_simp

text \<open>
  Claim C9, amended. When the filter throws, which it does exactly when some candidate's
  field is not a string, the state of the component is what it was (only the timer is
  gone). In the Promise version \<open>filterDataAsync\<close> rejects and the error thrown again by
  \<open>.catch\<close> ends as an unhandled rejection; in the timeout version the exception leaves
  the timer callback uncaught.
\<close>

theorem filter_error_leaves_state_unchanged:
  assumes "timers w = input # later"
    and "\<not> list_all (\<lambda>item. is_string (filterField pr item)) (data pr)"
  shows "step TimeoutVersion pr TimerElapses w = (w\<lparr>timers := later\<rparr>, [Uncaught TypeError])
       \<and> filterDataAsync pr input = Rejected TypeError
       \<and> step PromiseVersion pr TimerElapses w =
           (w\<lparr>timers := later\<rparr>, [UnhandledRejection (Error TypeError)])"
  using assms(1) filterData_throws [OF assms(2), of input]
  by (simp add: timerElapsed_def filterDataAsync_def)

theorem filter_error_leaves_state_unchanged_witness:
  "step PromiseVersion (hostProps [pokemon ''onix'', [(''id'', JNumber 7)]]) TimerElapses
     (handleOnChange (str ''on'') mounted)
   = ((handleOnChange (str ''on'') mounted)\<lparr>timers := []\<rparr>,
      [UnhandledRejection (Error TypeError)])
   \<and> comp ((handleOnChange (str ''on'') mounted)\<lparr>timers := []\<rparr>)
       = \<lparr>value' = JString (str ''on''), showSuggestions = False,
          suggestions = ([] :: jsobject list), activeSuggestion = 0\<rparr>"
proof -
  let ?pr = "hostProps [pokemon ''onix'', [(''id'', JNumber 7)]]"
  have t: "timers (handleOnChange (str ''on'') (mounted :: jsobject world)) = str ''on'' # []"
    by (simp add: handleOnChange_def mounted_def str_def)
  have bad: "\<not> list_all (\<lambda>item. is_string (filterField ?pr item)) (data ?pr)"
    by (simp add: hostProps_def pokemon_def getProp_def)
  have c: "comp ((handleOnChange (str ''on'') mounted)\<lparr>timers := []\<rparr>)
       = \<lparr>value' = JString (str ''on''), showSuggestions = False,
          suggestions = ([] :: jsobject list), activeSuggestion = 0\<rparr>"
    by (simp add: handleOnChange_def mounted_def str_def)
  from filter_error_leaves_state_unchanged [OF t bad] c
  show ?thesis by blast
qed

section \<open>Enter in the Promise version\<close>

text \<open>
  Claim C10. In the Promise version Enter commits only when the input text is not empty
  and there is a suggestion: with an empty input text Enter leaves the whole state as it
  is and calls nothing, whatever the suggestions are; and whenever Enter does anything,
  the text was not empty and the suggestions were not empty.
\<close>

theorem promise_version_enter_needs_text:
  "(value' (comp w) = JString [] \<longrightarrow> step PromiseVersion pr (KeyDown Enter) w = (w, []))
   \<and> (step PromiseVersion pr (KeyDown Enter) w \<noteq> (w, []) \<longrightarrow>
        value' (comp w) \<noteq> JString [] \<and> suggestions (comp w) \<noteq> [])"
  by (auto simp: onKeyDown_def enterGuard_def)

theorem promise_version_enter_needs_text_witness:
  "value' (comp (shown [] [pokemon ''onix''] 0)) = JString []
   \<and> step PromiseVersion (hostProps pokedex) (KeyDown Enter) (shown [] [pokemon ''onix''] 0)
       = (shown [] [pokemon ''onix''] 0, [])
   \<and> step PromiseVersion (hostProps pokedex) (KeyDown Enter) (shown ''on'' [pokemon ''onix''] 0)
       \<noteq> (shown ''on'' [pokemon ''onix''] 0, [])
   \<and> value' (comp (shown ''on'' [pokemon ''onix''] 0)) \<noteq> JString []
   \<and> suggestions (comp (shown ''on'' [pokemon ''onix''] 0)) \<noteq> []"
proof -
  have blank: "value' (comp (shown [] [pokemon ''onix''] 0)) = JString []"
    by (simp add: shown_def str_def)
  have acts: "step PromiseVersion (hostProps pokedex) (KeyDown Enter) (shown ''on'' [pokemon ''onix''] 0)
       \<noteq> (shown ''on'' [pokemon ''onix''] 0, [])"
    by (simp add: shown_def str_def onKeyDown_def enterGuard_def enterPressed_def at_index_def
        hostProps_def)
  from promise_version_enter_needs_text [of "shown [] [pokemon ''onix''] 0" "hostProps pokedex"]
    promise_version_enter_needs_text [of "shown ''on'' [pokemon ''onix''] 0" "hostProps pokedex"]
    blank acts
  show ?thesis by blast
qed

section \<open>Committing a suggestion\<close>



section \<open>Ways of hiding the list\<close>

lemma hiding_transitions_classified:
  assumes "showSuggestions (comp w)"
    and "step v pr e w = (w', out)"
    and "\<not> showSuggestions (comp w')"
  shows "e = Change []
       \<or> (e = KeyDown Escape \<and> value' (comp w') = JString [] \<and> out = [])
       \<or> (e = MouseDownOutside \<and> value' (comp w') = value' (comp w) \<and> out = [])
       \<or> ((e = KeyDown Enter \<or> (\<exists>n. e = ClickItem n)) \<and>
           ((\<exists>item \<in> set (suggestions (comp w)).
               value' (comp w') = filterField pr item \<and>
               out = (if setSelectedItem pr then [Selected item] else []))
            \<or> (value' (comp w') = value' (comp w) \<and> out = [Uncaught TypeError])))"
proof (cases e)
  case (Change input)
  with assms show ?thesis
    by (auto simp: handleOnChange_def Let_def split: if_splits)
next
  case TimerElapses
  with assms show ?thesis
    by (auto simp: timerElapsed_def filterDataAsync_def Let_def
        split: list.splits version.splits sum.splits settled.splits)
next
  case (KeyDown k)
  with assms show ?thesis
    by (cases k)
      (auto simp: onKeyDown_def enterPressed_def at_index_def Let_def
        split: if_splits option.splits)
next
  case (MouseEnterItem n)
  with assms show ?thesis
    by (auto simp: onSuggestionItemHover_def split: if_splits)
next
  case (ClickItem n)
  with assms show ?thesis
    by (auto simp: onSetSuggestion_def itemRendered_def split: if_splits)
next
  case MouseDownOutside
  with assms show ?thesis
    by (auto simp: onClickOutside_def)
qed

text \<open>
  Claim C8 as stated fails: Enter on a shown list is a transition to the hidden state that
  is caused neither by Escape nor by the query becoming empty, and it replaces the input
  text (\<open>on\<close> becomes \<open>onix\<close>) and calls the host's callback.
\<close>

theorem enter_hides_and_changes_text_counterexample:
  "showSuggestions (comp (shown ''on'' [pokemon ''onix''] 0))
   \<and> step TimeoutVersion (hostProps pokedex) (KeyDown Enter) (shown ''on'' [pokemon ''onix''] 0)
     = (\<lparr>comp = \<lparr>value' = JString (str ''onix''), showSuggestions = False,
                  suggestions = [pokemon ''onix''], activeSuggestion = 0\<rparr>, timers = []\<rparr>,
        [Selected (pokemon ''onix'')])
   \<and> step PromiseVersion (hostProps pokedex) (KeyDown Enter) (shown ''on'' [pokemon ''onix''] 0)
     = (\<lparr>comp = \<lparr>value' = JString (str ''onix''), showSuggestions = False,
                  suggestions = [pokemon ''onix''], activeSuggestion = 0\<rparr>, timers = []\<rparr>,
        [Selected (pokemon ''onix'')])"
  by code_simp

text \<open>
  Claim C8, amended. Escape hides the list and clears the input text; a mouse press
  outside the component hides the list, keeps the input text and calls nothing. Every
  step that hides a shown list is one of: the input becoming empty; Escape; a press
  outside; or Enter or a click on an item, which either commit a suggestion (the input
  text becomes that suggestion's field value and the callback, if any, is called with it)
  or, for Enter with the cursor outside the suggestions, keep the text and throw.
\<close>

theorem hiding_frame_condition:
  "step v pr (KeyDown Escape) w =
      (w\<lparr>comp := (comp w)\<lparr>showSuggestions := False, value' := JString []\<rparr>\<rparr>, [])
   \<and> step v pr MouseDownOutside w = (w\<lparr>comp := (comp w)\<lparr>showSuggestions := False\<rparr>\<rparr>, [])
   \<and> (showSuggestions (comp w) \<and> step v pr e w = (w', out) \<and> \<not> showSuggestions (comp w') \<longrightarrow>
         e = Change []
       \<or> (e = KeyDown Escape \<and> value' (comp w') = JString [] \<and> out = [])
       \<or> (e = MouseDownOutside \<and> value' (comp w') = value' (comp w) \<and> out = [])
       \<or> ((e = KeyDown Enter \<or> (\<exists>n. e = ClickItem n)) \<and>
           ((\<exists>item \<in> set (suggestions (comp w)).
               value' (comp w') = filterField pr item \<and>
               out = (if setSelectedItem pr then [Selected item] else []))
            \<or> (value' (comp w') = value' (comp w) \<and> out = [Uncaught TypeError]))))"
proof (intro conjI impI)
  show "step v pr (KeyDown Escape) w =
      (w\<lparr>comp := (comp w)\<lparr>showSuggestions := False, value' := JString []\<rparr>\<rparr>, [])"
    by (simp add: onKeyDown_def)
  show "step v pr MouseDownOutside w = (w\<lparr>comp := (comp w)\<lparr>showSuggestions := False\<rparr>\<rparr>, [])"
    by (simp add: onClickOutside_def)
next
  assume a: "showSuggestions (comp w) \<and> step v pr e w = (w', out) \<and> \<not> showSuggestions (comp w')"
  then show "e = Change []
       \<or> (e = KeyDown Escape \<and> value' (comp w') = JString [] \<and> out = [])
       \<or> (e = MouseDownOutside \<and> value' (comp w') = value' (comp w) \<and> out = [])
       \<or> ((e = KeyDown Enter \<or> (\<exists>n. e = ClickItem n)) \<and>
           ((\<exists>item \<in> set (suggestions (comp w)).
               value' (comp w') = filterField pr item \<and>
               out = (if setSelectedItem pr then [Selected item] else []))
            \<or> (value' (comp w') = value' (comp w) \<and> out = [Uncaught TypeError])))"
    using hiding_transitions_classified [of w v pr e w' out] by blast
qed

theorem hiding_frame_condition_witness:
  "showSuggestions (comp (shown ''on'' [pokemon ''onix''] 0))
   \<and> step PromiseVersion (hostProps pokedex) MouseDownOutside (shown ''on'' [pokemon ''onix''] 0)
      = ((shown ''on'' [pokemon ''onix''] 0)
           \<lparr>comp := (comp (shown ''on'' [pokemon ''onix''] 0))\<lparr>showSuggestions := False\<rparr>\<rparr>, [])
   \<and> \<not> showSuggestions (comp ((shown ''on'' [pokemon ''onix''] 0)
           \<lparr>comp := (comp (shown ''on'' [pokemon ''onix''] 0))\<lparr>showSuggestions := False\<rparr>\<rparr>))
   \<and> value' (comp ((shown ''on'' [pokemon ''onix''] 0)
           \<lparr>comp := (comp (shown ''on'' [pokemon ''onix''] 0))\<lparr>showSuggestions := False\<rparr>\<rparr>))
       = JString (str ''on'')"
proof -
  let ?w = "shown ''on'' [pokemon ''onix''] 0"
  let ?w' = "?w\<lparr>comp := (comp ?w)\<lparr>showSuggestions := False\<rparr>\<rparr>"
  note inst = hiding_frame_condition [of PromiseVersion "hostProps pokedex" ?w MouseDownOutside ?w' "[]"]
  have vis: "showSuggestions (comp ?w)" by (simp add: shown_def)
  have hid: "\<not> showSuggestions (comp ?w')" by simp
  have st: "step PromiseVersion (hostProps pokedex) MouseDownOutside ?w = (?w', [])"
    using inst by blast
  have "MouseDownOutside = Change []
       \<or> (MouseDownOutside = KeyDown Escape \<and> value' (comp ?w') = JString []
            \<and> [] = ([] :: jsobject effect list))
       \<or> (MouseDownOutside = MouseDownOutside \<and> value' (comp ?w') = value' (comp ?w)
            \<and> [] = ([] :: jsobject effect list))
       \<or> ((MouseDownOutside = KeyDown Enter \<or> (\<exists>n. MouseDownOutside = ClickItem n)) \<and>
           ((\<exists>item \<in> set (suggestions (comp ?w)).
               value' (comp ?w') = filterField (hostProps pokedex) item \<and>
               [] = (if setSelectedItem (hostProps pokedex) then [Selected item] else []))
            \<or> (value' (comp ?w') = value' (comp ?w) \<and> [] = [Uncaught TypeError])))"
    using inst vis st hid by blast
  then have "value' (comp ?w') = value' (comp ?w)" by simp
  then have "value' (comp ?w') = JString (str ''on'')" by (simp add: shown_def)
  with vis st hid show ?thesis by blast
qed

section \<open>The highlighter on ordinary queries\<close>

lemma parsePattern_ordinary:
  "list_all (\<lambda>u. u \<noteq> Latin1 (CHR ''.'') \<and> u \<notin> Latin1 ` set syntaxCharacters) q \<Longrightarrow>
   parsePattern q = Some (map Lit q)"
  by (induction q) auto

text \<open>\<open>Canonicalize\<close> and the lower case tell the same code units apart.\<close>

lemma canonical_of_lower:
  "\<forall>c. canonicalize_latin1 (toLowerCase_latin1 c) = canonicalize_latin1 c"
  by code_simp

lemma lower_of_canonical:
  "\<forall>c. lowerOfCanonical (canonicalize_latin1 c) = toLowerCase_latin1 c"
  by code_simp

lemma canonicalize_eq_iff_lower_eq:
  "canonicalize_latin1 a = canonicalize_latin1 b \<longleftrightarrow> toLowerCase_latin1 a = toLowerCase_latin1 b"
proof
  assume "canonicalize_latin1 a = canonicalize_latin1 b"
  then have "lowerOfCanonical (canonicalize_latin1 a) = lowerOfCanonical (canonicalize_latin1 b)"
    by simp
  then show "toLowerCase_latin1 a = toLowerCase_latin1 b"
    using lower_of_canonical by simp
next
  assume "toLowerCase_latin1 a = toLowerCase_latin1 b"
  then have "canonicalize_latin1 (toLowerCase_latin1 a) = canonicalize_latin1 (toLowerCase_latin1 b)"
    by simp
  then show "canonicalize_latin1 a = canonicalize_latin1 b"
    using canonical_of_lower by simp
qed

lemma sameLetter_sym_latin1: "isLatin1 x \<Longrightarrow> isLatin1 y \<Longrightarrow> sameLetter x y \<Longrightarrow> sameLetter y x"
  by (cases x; cases y) auto

lemma canonicalize_eq_iff_sameLetter:
  assumes "isLatin1 x" and "isLatin1 y"
  shows "canonicalize x = canonicalize y \<longleftrightarrow> sameLetter y x"
proof -
  from assms obtain a b where x: "x = Latin1 a" and y: "y = Latin1 b"
    by (cases x; cases y) simp_all
  have "canonicalize x = canonicalize y \<longleftrightarrow> toLowerCase_latin1 a = toLowerCase_latin1 b"
    by (simp add: x y canonicalize_eq_iff_lower_eq)
  also have "\<dots> \<longleftrightarrow> sameLetter x y"
    by (simp only: x y lower_eq_iff_sameLetter)
  also have "\<dots> \<longleftrightarrow> sameLetter y x"
    using assms by (blast intro: sameLetter_sym_latin1)
  finally show ?thesis .
qed

lemma occursAtStart_iff:
  "occursAtStart q s \<longleftrightarrow> length q \<le> length s \<and> list_all2 sameLetter (take (length q) s) q"
proof
  assume "occursAtStart q s"
  then obtain m r where s: "s = m @ r" and same: "list_all2 sameLetter m q"
    unfolding occursAtStart_def by blast
  from same have "length m = length q" by (rule list_all2_lengthD)
  with s same show "length q \<le> length s \<and> list_all2 sameLetter (take (length q) s) q"
    by simp
next
  assume a: "length q \<le> length s \<and> list_all2 sameLetter (take (length q) s) q"
  have "s = take (length q) s @ drop (length q) s" by simp
  with a show "occursAtStart q s"
    unfolding occursAtStart_def by blast
qed

lemma matchesAt_Lit:
  "list_all isLatin1 q \<Longrightarrow> list_all isLatin1 s \<Longrightarrow>
   matchesAt (map Lit q) s \<longleftrightarrow> occursAtStart q s"
proof (induction q arbitrary: s)
  case Nil
  then show ?case by (simp add: occursAtStart_iff)
next
  case (Cons a q)
  show ?case
  proof (cases s)
    case Nil
    then show ?thesis by (simp add: occursAtStart_iff)
  next
    case (Cons c cs)
    with Cons.prems Cons.IH [of cs] show ?thesis
      by (auto simp: occursAtStart_iff canonicalize_eq_iff_sameLetter)
  qed
qed

lemma contains_ci_Nil: "contains_ci [] q \<longleftrightarrow> occursAtStart q []"
  by (auto simp: contains_ci_def occursAtStart_def)

lemma contains_ci_Cons:
  "contains_ci (c # cs) q \<longleftrightarrow> occursAtStart q (c # cs) \<or> contains_ci cs q"
proof
  assume "contains_ci (c # cs) q"
  then obtain p m s where v: "c # cs = p @ m @ s" and same: "list_all2 sameLetter m q"
    unfolding contains_ci_def by blast
  show "occursAtStart q (c # cs) \<or> contains_ci cs q"
  proof (cases p)
    case Nil
    with v same show ?thesis unfolding occursAtStart_def by auto
  next
    case (Cons y ys)
    with v have "cs = ys @ m @ s" by simp
    with same show ?thesis unfolding contains_ci_def by blast
  qed
next
  assume "occursAtStart q (c # cs) \<or> contains_ci cs q"
  then show "contains_ci (c # cs) q"
  proof
    assume "occursAtStart q (c # cs)"
    then obtain m r where "c # cs = [] @ m @ r" and "list_all2 sameLetter m q"
      unfolding occursAtStart_def by auto
    then show ?thesis unfolding contains_ci_def by blast
  next
    assume "contains_ci cs q"
    then obtain p m s where "cs = p @ m @ s" and same: "list_all2 sameLetter m q"
      unfolding contains_ci_def by blast
    then have "c # cs = (c # p) @ m @ s" by simp
    with same show ?thesis unfolding contains_ci_def by blast
  qed
qed

lemma regexTest_Lit:
  "list_all isLatin1 q \<Longrightarrow> list_all isLatin1 s \<Longrightarrow>
   regexTest (map Lit q) s \<longleftrightarrow> contains_ci s q"
proof (induction s)
  case Nil
  then show ?case by (simp add: contains_ci_Nil matchesAt_Lit)
next
  case (Cons c cs)
  from Cons.prems have "matchesAt (map Lit q) (c # cs) \<longleftrightarrow> occursAtStart q (c # cs)"
    by (intro matchesAt_Lit) simp_all
  with Cons show ?case
    by (simp add: contains_ci_Cons)
qed

lemma highlightSpan_is_emphasis: "highlightSpan q = emphasis q"
  by (simp add: highlightSpan_def emphasis_def)

lemma replaceAll_highlighted:
  assumes "q \<noteq> []" and "list_all isLatin1 q"
  shows "list_all isLatin1 s \<Longrightarrow> highlighted q s (replaceAll (map Lit q) (highlightSpan q) s)"
proof (induction "length s" arbitrary: s rule: less_induct)
  case less
  show ?case
  proof (cases s)
    case Nil
    with assms(1) show ?thesis by (simp add: highlighted.nothing)
  next
    case (Cons c cs)
    show ?thesis
    proof (cases "occursAtStart q (c # cs)")
      case True
      let ?m = "take (length q) (c # cs)"
      let ?rest = "drop (length q) (c # cs)"
      from True have len: "length q \<le> length (c # cs)" and same: "list_all2 sameLetter ?m q"
        by (simp_all add: occursAtStart_iff)
      have "set ?m \<subseteq> set s" and "set ?rest \<subseteq> set s"
        unfolding Cons by (rule set_take_subset) (rule set_drop_subset)
      with less.prems have m_latin1: "list_all isLatin1 ?m"
        and rest_latin1: "list_all isLatin1 ?rest"
        by (auto simp: list_all_iff)
      have shorter: "length ?rest < length s"
        using assms(1) Cons by (cases q) simp_all
      have mirrored: "list_all2 sameLetter q ?m"
        using same m_latin1 assms(2)
        by (auto simp: list_all2_conv_all_nth list_all_length intro: sameLetter_sym_latin1)
      have "highlighted q (?m @ ?rest)
              (emphasis q @ replaceAll (map Lit q) (highlightSpan q) ?rest)"
        using same mirrored less.hyps [OF shorter rest_latin1] by (rule highlighted.wrap)
      moreover have "matchesAt (map Lit q) (c # cs)"
        using True assms(2) less.prems Cons by (simp add: matchesAt_Lit)
      ultimately show ?thesis
        using assms(1) Cons by (simp add: highlightSpan_is_emphasis)
    next
      case False
      have cs_latin1: "list_all isLatin1 cs" using less.prems Cons by simp
      have "\<not> matchesAt (map Lit q) (c # cs)"
        using False assms(2) less.prems Cons by (simp add: matchesAt_Lit)
      moreover have "highlighted q (c # cs) (c # replaceAll (map Lit q) (highlightSpan q) cs)"
        using False less.hyps [of cs] cs_latin1 Cons by (intro highlighted.keep) simp_all
      ultimately show ?thesis
        using assms(1) Cons by simp
    qed
  qed
qed

text \<open>
  Claim C7 as stated fails. The query \<open>an\<close> occurs twice in \<open>banana\<close> and both
  occurrences are wrapped, not the first only; and the dot is not taken literally: it does
  not occur in \<open>ab\<close>, yet both characters are replaced.
\<close>

theorem highlighter_wraps_every_match_counterexample:
  "HighlightSearchValue (str ''an'') (str ''banana'')
     = Some (InnerHTML (str ''b'' @ emphasis (str ''an'') @ emphasis (str ''an'') @ str ''a''))
   \<and> HighlightSearchValue (str ''.'') (str ''ab'')
     = Some (InnerHTML (emphasis (str ''.'') @ emphasis (str ''.'')))
   \<and> \<not> contains_ci (str ''ab'') (str ''.'')"
proof -
  have runs: "HighlightSearchValue (str ''an'') (str ''banana'')
     = Some (InnerHTML (str ''b'' @ emphasis (str ''an'') @ emphasis (str ''an'') @ str ''a''))
   \<and> HighlightSearchValue (str ''.'') (str ''ab'')
     = Some (InnerHTML (emphasis (str ''.'') @ emphasis (str ''.'')))"
    by code_simp
  have "\<not> str_includes (toLowerCase (str ''ab'')) (toLowerCase (str ''.''))"
    by code_simp
  then have absent: "\<not> contains_ci (str ''ab'') (str ''.'')"
    by (simp add: includes_lower_iff_contains_ci latin1_str)
  from runs absent show ?thesis by blast
qed

text \<open>
  Claim C7, amended. For a non-empty query made of ordinary characters (no dot and no
  other pattern syntax), query and text over U+0000 to U+00FF, the highlighter is a
  function of the text and the query: if the query occurs in the text as a
  case-insensitive substring, every occurrence found scanning from the left is put inside
  the emphasis marker and the other characters are kept; otherwise the text is rendered
  as it is. The case of the letters inside a marker is left open.
\<close>

theorem highlighter_on_ordinary_query:
  assumes "ordinary q" and "list_all isLatin1 q" and "list_all isLatin1 v"
  shows "\<exists>out. highlighted q v out \<and>
           HighlightSearchValue q v =
             Some (if contains_ci v q then InnerHTML out else TextChild v)"
proof -
  from assms(1) have p: "parsePattern q = Some (map Lit q)" and ne: "q \<noteq> []"
    by (simp_all add: ordinary_def parsePattern_ordinary)
  let ?out = "replaceAll (map Lit q) (highlightSpan q) v"
  have "highlighted q v ?out"
    using ne assms(2,3) by (rule replaceAll_highlighted)
  moreover have "HighlightSearchValue q v =
             Some (if contains_ci v q then InnerHTML ?out else TextChild v)"
    using assms(2,3) by (simp add: HighlightSearchValue_def p regexTest_Lit)
  ultimately show ?thesis by blast
qed

theorem highlighter_on_ordinary_query_witness:
  "ordinary (str ''AN'') \<and> list_all isLatin1 (str ''AN'') \<and> list_all isLatin1 (str ''banana'')
   \<and> contains_ci (str ''banana'') (str ''AN'')
   \<and> highlighted (str ''AN'') (str ''banana'')
        (str ''b'' @ emphasis (str ''AN'') @ emphasis (str ''AN'') @ str ''a'')"
proof -
  have o: "ordinary (str ''AN'')" by code_simp
  have "str_includes (toLowerCase (str ''banana'')) (toLowerCase (str ''AN''))"
    by code_simp
  then have c: "contains_ci (str ''banana'') (str ''AN'')"
    by (simp add: includes_lower_iff_contains_ci latin1_str)
  have run: "HighlightSearchValue (str ''AN'') (str ''banana'')
     = Some (InnerHTML (str ''b'' @ emphasis (str ''AN'') @ emphasis (str ''AN'') @ str ''a''))"
    by code_simp
  from highlighter_on_ordinary_query [OF o latin1_str latin1_str, of "''banana''"]
  obtain out where h: "highlighted (str ''AN'') (str ''banana'') out"
    and r: "HighlightSearchValue (str ''AN'') (str ''banana'') =
             Some (if contains_ci (str ''banana'') (str ''AN'')
                   then InnerHTML out else TextChild (str ''banana''))"
    by blast
  from r c run have "out = str ''b'' @ emphasis (str ''AN'') @ emphasis (str ''AN'') @ str ''a''"
    by simp
  with h o c latin1_str show ?thesis by simp
qed

section \<open>Requests that were superseded\<close>

text \<open>
  An elapsed timer commits the result of its own request when the filter succeeds,
  whatever has been typed since and whatever other requests are still pending.
\<close>

lemma elapsed_timer_commits_result:
  assumes "timers w = input # later"
    and "filterData (filterField pr) input (data pr) = Inr found"
  shows "step v pr TimerElapses w =
           (w\<lparr>comp := (comp w)\<lparr>showSuggestions := True, suggestions := found\<rparr>,
              timers := later\<rparr>, [])"
  using assms by (cases v) (simp_all add: timerElapsed_def filterDataAsync_def)

text \<open>
  The timers elapse in the order of the requests, so once every pending timer has elapsed
  (and the filter has not thrown) the suggestions are those of the last request.
\<close>

lemma last_request_wins:
  assumes "list_all (\<lambda>item. is_string (filterField pr item)) (data pr)"
    and "timers w = pending" and "pending \<noteq> []"
  shows "fst (run v pr (replicate (length pending) TimerElapses) (w, out)) =
           w\<lparr>comp := (comp w)\<lparr>showSuggestions := True,
                  suggestions :=
                    filter (\<lambda>item. str_includes (toLowerCase (the_string (filterField pr item)))
                                     (toLowerCase (last pending))) (data pr)\<rparr>,
             timers := []\<rparr>"
  using assms(2,3)
proof (induction pending arbitrary: w out)
  case Nil
  then show ?case by simp
next
  case (Cons input later)
  let ?found = "filter (\<lambda>item. str_includes (toLowerCase (the_string (filterField pr item)))
                                  (toLowerCase input)) (data pr)"
  have f: "filterData (filterField pr) input (data pr) = Inr ?found"
    using filterData_strings [OF assms(1), of input] .
  let ?w1 = "w\<lparr>comp := (comp w)\<lparr>showSuggestions := True, suggestions := ?found\<rparr>,
              timers := later\<rparr>"
  have st: "step v pr TimerElapses w = (?w1, [])"
    using elapsed_timer_commits_result [OF Cons.prems(1) f] .
  show ?case
  proof (cases later)
    case Nil
    with st show ?thesis by simp
  next
    case (Cons b bs)
    have t1: "timers ?w1 = later" by simp
    have ne: "later \<noteq> []" using Cons by simp
    from Cons.IH [OF t1 ne, of "out @ []"] st ne show ?thesis
      by simp
  qed
qed

text \<open>
  Claim C1, on the input where the code departs from it. The user types \<open>o\<close> and then,
  before the first timer has elapsed, \<open>n\<close>. When the first timer elapses, the result of the
  request for \<open>o\<close> (three names) is applied to the visible state although the input reads
  \<open>on\<close> and the request for \<open>on\<close> is still pending. Both versions do so.
\<close>

theorem stale_result_is_committed:
  "run TimeoutVersion (hostProps pokedex) [Change (str ''o''), Change (str ''on''), TimerElapses] (mounted, [])
     = (\<lparr>comp = \<lparr>value' = JString (str ''on''), showSuggestions = True,
                  suggestions = [pokemon ''onix'', pokemon ''voltorb'', pokemon ''tentacool''],
                  activeSuggestion = 0\<rparr>,
         timers = [str ''on'']\<rparr>, [])
   \<and> run PromiseVersion (hostProps pokedex) [Change (str ''o''), Change (str ''on''), TimerElapses] (mounted, [])
     = (\<lparr>comp = \<lparr>value' = JString (str ''on''), showSuggestions = True,
                  suggestions = [pokemon ''onix'', pokemon ''voltorb'', pokemon ''tentacool''],
                  activeSuggestion = 0\<rparr>,
         timers = [str ''on'']\<rparr>, [])"
  by code_simp

section \<open>Empty text and the visible list\<close>

text \<open>
  Every event but an elapsing timer keeps the list hidden while the input text is empty.
\<close>

lemma empty_text_hidden_kept_by_user_events:
  assumes "e \<noteq> TimerElapses"
    and "value' (comp w) = JString [] \<Longrightarrow> \<not> showSuggestions (comp w)"
    and "value' (comp (fst (step v pr e w))) = JString []"
  shows "\<not> showSuggestions (comp (fst (step v pr e w)))"
proof (cases e)
  case (Change input)
  with assms show ?thesis by (auto simp: handleOnChange_def Let_def split: if_splits)
next
  case TimerElapses
  with assms show ?thesis by simp
next
  case (KeyDown k)
  with assms show ?thesis
    by (cases k)
      (auto simp: onKeyDown_def enterPressed_def Let_def split_def
        split: if_splits option.splits)
next
  case (MouseEnterItem n)
  with assms show ?thesis by (auto simp: onSuggestionItemHover_def split: if_splits)
next
  case (ClickItem n)
  with assms show ?thesis by (auto simp: onSetSuggestion_def split: if_splits)
next
  case MouseDownOutside
  with assms show ?thesis by (auto simp: onClickOutside_def)
qed

text \<open>
  Claim C4, on the input where the code departs from it. The user types \<open>on\<close> and clears
  the input (or presses Escape) before the timer has elapsed; the timer then elapses and
  shows the list although the input text is empty.
\<close>

theorem list_shown_with_empty_text:
  "run TimeoutVersion (hostProps pokedex) [Change (str ''on''), Change [], TimerElapses] (mounted, [])
     = (shown [] [pokemon ''onix''] 0, [])
   \<and> run PromiseVersion (hostProps pokedex) [Change (str ''on''), KeyDown Escape, TimerElapses]
       (mounted, [])
     = (shown [] [pokemon ''onix''] 0, [])"
  by code_simp

section \<open>Keys on an empty list\<close>

text \<open>
  With no suggestions and the cursor at 0 the arrow keys do nothing in either version, and
  Enter does nothing in the Promise version.
\<close>

lemma no_results_keys_ignored:
  assumes "suggestions (comp w) = []" and "activeSuggestion (comp w) = 0"
  shows "step v pr (KeyDown ArrowUp) w = (w, [])"
    and "step v pr (KeyDown ArrowDown) w = (w, [])"
    and "step PromiseVersion pr (KeyDown Enter) w = (w, [])"
  using assms by (simp_all add: onKeyDown_def enterGuard_def)

text \<open>
  Claim C2, on the input where the code departs from it. In the timeout version the user
  types \<open>xyz\<close>, the timer elapses and the list is shown with no result; Enter then hides
  the list and reads \<open>suggestions[0][filterField]\<close> on the empty array, which throws.
\<close>

theorem enter_on_no_results_throws:
  "run TimeoutVersion (hostProps pokedex) [Change (str ''xyz''), TimerElapses] (mounted, [])
     = (shown ''xyz'' [] 0, [])
   \<and> step TimeoutVersion (hostProps pokedex) (KeyDown Enter) (shown ''xyz'' [] 0)
     = (\<lparr>comp = \<lparr>value' = JString (str ''xyz''), showSuggestions = False, suggestions = [],
                  activeSuggestion = 0\<rparr>, timers = []\<rparr>,
        [Uncaught TypeError])"
  by code_simp

section \<open>The cursor\<close>

lemma indexOf_bounds:
  "x \<in> set xs \<Longrightarrow> 0 \<le> indexOf xs x \<and> indexOf xs x < int (length xs)"
  by (induction xs) (auto simp: Let_def)

text \<open>
  The arrow keys and typing move the cursor as follows: ArrowUp at 0 and ArrowDown at the
  last position (or beyond) leave it, ArrowUp elsewhere takes one off, ArrowDown before
  the last position adds one, and a keystroke in the input sets it to 0.
\<close>

lemma arrow_keys_and_typing_move_cursor:
  "activeSuggestion (comp (fst (step v pr (KeyDown ArrowUp) w))) =
     (if activeSuggestion (comp w) = 0 then 0 else activeSuggestion (comp w) - 1)"
  "activeSuggestion (comp (fst (step v pr (KeyDown ArrowDown) w))) =
     (if activeSuggestion (comp w) < int (length (suggestions (comp w))) - 1
      then activeSuggestion (comp w) + 1 else activeSuggestion (comp w))"
  "activeSuggestion (comp (fst (step v pr (Change input) w))) = 0"
  by (simp_all add: onKeyDown_def handleOnChange_def Let_def)

text \<open>
  Every event but an elapsing timer keeps the cursor inside a non-empty list of
  suggestions.
\<close>

lemma cursor_kept_in_bounds_by_user_events:
  assumes "e \<noteq> TimerElapses"
    and "suggestions (comp w) \<noteq> [] \<Longrightarrow>
           0 \<le> activeSuggestion (comp w) \<and>
           activeSuggestion (comp w) < int (length (suggestions (comp w)))"
    and "suggestions (comp (fst (step v pr e w))) \<noteq> []"
  shows "0 \<le> activeSuggestion (comp (fst (step v pr e w))) \<and>
         activeSuggestion (comp (fst (step v pr e w)))
           < int (length (suggestions (comp (fst (step v pr e w)))))"
proof (cases e)
  case (Change input)
  with assms show ?thesis by (auto simp: handleOnChange_def Let_def split: if_splits)
next
  case TimerElapses
  with assms show ?thesis by simp
next
  case (KeyDown k)
  with assms show ?thesis
    by (cases k)
      (auto simp: onKeyDown_def enterPressed_def Let_def split_def
        split: if_splits option.splits)
next
  case (MouseEnterItem n)
  show ?thesis
  proof (cases "itemRendered (comp w) n")
    case True
    then have "suggestions (comp w) ! n \<in> set (suggestions (comp w))"
      by (simp add: itemRendered_def)
    from indexOf_bounds [OF this] True MouseEnterItem show ?thesis
      by (simp add: onSuggestionItemHover_def)
  next
    case False
    with assms MouseEnterItem show ?thesis by simp
  qed
next
  case (ClickItem n)
  with assms show ?thesis by (auto simp: onSetSuggestion_def split: if_splits)
next
  case MouseDownOutside
  with assms show ?thesis by (auto simp: onClickOutside_def)
qed

text \<open>
  Claim C6, on the input where the code departs from it. The user types \<open>o\<close> and gets
  three suggestions, types \<open>n\<close> and, while that request is pending, presses ArrowDown
  twice on the list still shown. The timer elapses and leaves one suggestion with the
  cursor at 2, outside the list; Enter then reads \<open>suggestions[2]\<close> and throws, in the
  Promise version too.
\<close>

theorem cursor_left_outside_suggestions:
  "run TimeoutVersion (hostProps pokedex)
      [Change (str ''o''), TimerElapses, Change (str ''on''), KeyDown ArrowDown, KeyDown ArrowDown,
       TimerElapses]
      (mounted, [])
     = (shown ''on'' [pokemon ''onix''] 2, [])
   \<and> run PromiseVersion (hostProps pokedex)
      [Change (str ''o''), TimerElapses, Change (str ''on''), KeyDown ArrowDown, KeyDown ArrowDown,
       TimerElapses, KeyDown Enter]
      (mounted, [])
     = (\<lparr>comp = \<lparr>value' = JString (str ''on''), showSuggestions = False,
                  suggestions = [pokemon ''onix''], activeSuggestion = 2\<rparr>, timers = []\<rparr>,
        [Uncaught TypeError])"
  by code_simp

end
